theory Spec2Isabelle
  imports Main
begin

section \<open>Go strings and the library functions the handlers call\<close>

text \<open>
  A Go string is a sequence of bytes: \<open>string\<close> (a list of 8-bit \<open>char\<close>s).
  The library functions below are the ones \<open>handlers.go\<close> calls from \<open>strings\<close>,
  \<open>strconv\<close>, \<open>unicode\<close>, \<open>regexp\<close> and \<open>net/url\<close>. Every separator the
  handlers pass to \<open>Split\<close> and \<open>SplitN\<close> is a one-byte string, so the separator is a
  \<open>char\<close> here.

  \<open>unicode.IsNumber\<close> reads a string as UTF-8 code points. The model of it reads
  bytes: on ASCII text, where every code point is one byte and the numbers of Unicode
  are the ten decimal digits, the two agree. A statement that depends on which
  characters are numbers is made for ASCII strings (\<open>isASCII\<close>).
\<close>

definition isASCII :: "string \<Rightarrow> bool" where
  "isASCII s = (\<forall>c\<in>set s. (of_char c :: nat) < 128)"

fun HasPrefix :: "string \<Rightarrow> string \<Rightarrow> bool" where
  "HasPrefix s [] = True"
| "HasPrefix [] (p # ps) = False"
| "HasPrefix (c # cs) (p # ps) = (c = p \<and> HasPrefix cs ps)"

definition HasSuffix :: "string \<Rightarrow> string \<Rightarrow> bool" where
  "HasSuffix s suf = HasPrefix (rev s) (rev suf)"

fun Contains :: "string \<Rightarrow> string \<Rightarrow> bool" where
  "Contains [] sub = (sub = [])"
| "Contains (c # cs) sub = (HasPrefix (c # cs) sub \<or> Contains cs sub)"

text \<open>\<open>strings.Split(s, sep)\<close>: the pieces of \<open>s\<close> between the separators, never an
  empty list.\<close>

fun Split :: "string \<Rightarrow> char \<Rightarrow> string list" where
  "Split [] sep = [[]]"
| "Split (c # cs) sep =
     (if c = sep then [] # Split cs sep
      else (case Split cs sep of
              [] \<Rightarrow> [[c]]
            | p # ps \<Rightarrow> (c # p) # ps))"

text \<open>\<open>strings.SplitN(s, sep, n)\<close> for \<open>n \<ge> 0\<close>: at most \<open>n\<close> pieces, the last one
  the unsplit rest; \<open>n = 0\<close> gives no piece at all.\<close>

fun SplitN :: "string \<Rightarrow> char \<Rightarrow> nat \<Rightarrow> string list" where
  "SplitN s sep 0 = []"
| "SplitN s sep (Suc 0) = [s]"
| "SplitN [] sep (Suc (Suc n)) = [[]]"
| "SplitN (c # cs) sep (Suc (Suc n)) =
     (if c = sep then [] # SplitN cs sep (Suc n)
      else (case SplitN cs sep (Suc (Suc n)) of
              [] \<Rightarrow> [[c]]
            | p # ps \<Rightarrow> (c # p) # ps))"

text \<open>\<open>strings.TrimRightFunc(s, f)\<close>: \<open>s\<close> without its longest tail of characters
  that satisfy \<open>f\<close>.\<close>

definition TrimRightFunc :: "string \<Rightarrow> (char \<Rightarrow> bool) \<Rightarrow> string" where
  "TrimRightFunc s f = rev (dropWhile f (rev s))"

text \<open>An ASCII decimal digit, \<open>'0' <= ch && ch <= '9'\<close>, and its value.\<close>

definition isDigit :: "char \<Rightarrow> bool" where
  "isDigit c = (48 \<le> (of_char c :: nat) \<and> (of_char c :: nat) \<le> 57)"

definition digitVal :: "char \<Rightarrow> int" where
  "digitVal c = int (of_char c) - 48"

text \<open>\<open>unicode.IsNumber\<close> on ASCII.\<close>

definition IsNumber :: "char \<Rightarrow> bool" where
  "IsNumber r = isDigit r"

datatype error = ErrSyntax | ErrRange | ErrNoMirror

text \<open>
  \<open>strconv.Atoi\<close> on a platform whose \<open>int\<close> has 64 bits: an optional sign, then one
  or more decimal digits, the value within the range of \<open>int\<close>. \<open>parseUint\<close> is the
  digit loop of \<open>strconv.ParseUint\<close> (it gives up at the first byte that is not a digit,
  and as soon as the value no longer fits 64 bits); \<open>Atoi\<close> adds the sign and the range
  check of \<open>strconv.ParseInt\<close>.
\<close>

fun parseUint :: "string \<Rightarrow> int \<Rightarrow> error + int" where
  "parseUint [] n = Inr n"
| "parseUint (c # cs) n =
     (if \<not> isDigit c then Inl ErrSyntax
      else if 10 * n + digitVal c \<ge> 2 ^ 64 then Inl ErrRange
      else parseUint cs (10 * n + digitVal c))"

definition Atoi :: "string \<Rightarrow> error + int" where
  "Atoi s =
     (if s = [] then Inl ErrSyntax
      else
        let neg = (hd s = CHR ''-'');
            body = (if hd s = CHR ''-'' \<or> hd s = CHR ''+'' then tl s else s)
        in if body = [] then Inl ErrSyntax
           else (case parseUint body 0 of
                   Inl e \<Rightarrow> Inl e
                 | Inr un \<Rightarrow>
                     if \<not> neg \<and> un \<ge> 2 ^ 63 then Inl ErrRange
                     else if neg \<and> un > 2 ^ 63 then Inl ErrRange
                     else Inr (if neg then - un else un)))"

section \<open>Version comparison\<close>

definition isNotNumber :: "char \<Rightarrow> bool" where
  "isNotNumber r = (\<not> IsNumber r)"

text \<open>
  The integer \<open>compareVersions\<close> reads from one segment:
  \<open>aInt, err := strconv.Atoi(strings.TrimRightFunc(verA, isNotNumber))\<close>, and
  \<open>aInt = 0\<close> when \<open>err != nil\<close>.
\<close>

definition segmentInt :: "string \<Rightarrow> int" where
  "segmentInt ver =
     (case Atoi (TrimRightFunc ver isNotNumber) of
        Inl err \<Rightarrow> 0
      | Inr n \<Rightarrow> n)"

text \<open>The loop \<open>for i, verA := range aParts\<close>: the second list is \<open>bParts\<close> from
  index \<open>i\<close> on, so it is empty exactly when \<open>len(bParts) <= i\<close>.\<close>

fun compareParts :: "string list \<Rightarrow> string list \<Rightarrow> int" where
  "compareParts [] bParts = 0"
| "compareParts (verA # aParts) [] = 1"
| "compareParts (verA # aParts) (verB # bParts) =
     (if segmentInt verA > segmentInt verB then 1
      else if segmentInt verA < segmentInt verB then - 1
      else compareParts aParts bParts)"

definition compareVersions :: "string \<Rightarrow> string \<Rightarrow> int" where
  "compareVersions a b =
     (if a = b then 0
      else compareParts (Split a CHR ''.'') (Split b CHR ''.''))"

section \<open>Products for Windows XP and Vista clients\<close>

definition firefoxSHA1ESRAliasSuffix :: string where
  "firefoxSHA1ESRAliasSuffix = ''sha1''"

record xpRelease =
  Version :: string

definition tBirdWinXPLastRelease :: xpRelease where
  "tBirdWinXPLastRelease = \<lparr>Version = ''38.5.0''\<rparr>"

definition tBirdWinXPLastBeta :: xpRelease where
  "tBirdWinXPLastBeta = \<lparr>Version = ''43.0b1''\<rparr>"

definition tBirdSha1Product :: "string \<Rightarrow> string" where
  "tBirdSha1Product productSuffix =
     (if productSuffix = ''beta'' \<or> productSuffix = ''beta-latest''
        then Version tBirdWinXPLastBeta
      else if productSuffix = ''ssl'' then Version tBirdWinXPLastRelease @ ''-ssl''
      else if productSuffix = ''latest'' then Version tBirdWinXPLastRelease
      else
        let productSuffixParts = SplitN productSuffix CHR ''-'' 2;
            ver = productSuffixParts ! 0;
            possibleVersion =
              (if Contains ver ''.0b'' then tBirdWinXPLastBeta else tBirdWinXPLastRelease)
        in if compareVersions ver (Version possibleVersion) = - 1 then productSuffix
           else if length productSuffixParts = 1 then Version possibleVersion
           else if productSuffixParts ! 1 = ''ssl'' then Version possibleVersion @ ''-ssl''
           else productSuffix)"

definition firefoxSha1Product :: "string \<Rightarrow> string" where
  "firefoxSha1Product productSuffix =
     (if HasSuffix productSuffix ''-sha1'' then productSuffix
      else if HasSuffix productSuffix ''-complete'' \<or> Contains productSuffix ''-partial-''
        then productSuffix
      else firefoxSHA1ESRAliasSuffix)"

definition sha1Product :: "string \<Rightarrow> string" where
  "sha1Product product =
     (let productParts = SplitN product CHR ''-'' 2
      in if length productParts = 1 then product
         else if productParts ! 0 = ''firefox''
           then ''firefox-'' @ firefoxSha1Product (productParts ! 1)
         else if productParts ! 0 = ''thunderbird''
           then ''thunderbird-'' @ tBirdSha1Product (productParts ! 1)
         else product)"

section \<open>Detecting Windows XP and Vista clients\<close>

text \<open>
  The number of bytes \<open>utf8.DecodeRuneInString\<close> reads as the first code point of a
  string: the length of a well-formed UTF-8 sequence (1 to 4 bytes; the second byte of a
  sequence that starts with \<open>E0\<close>, \<open>ED\<close>, \<open>F0\<close> or \<open>F4\<close> has a narrower range
  than the other continuation bytes), and 1 for a byte that starts none (it is read as
  the code point \<open>U+FFFD\<close>).
\<close>

definition inRange :: "nat \<Rightarrow> nat \<Rightarrow> char \<Rightarrow> bool" where
  "inRange lo hi c = (lo \<le> of_char c \<and> of_char c \<le> hi)"

fun runeWidth :: "string \<Rightarrow> nat" where
  "runeWidth [] = 0"
| "runeWidth (b0 # rest) =
     (let n = (of_char b0 :: nat)
      in if n < 0x80 then 1
         else if n < 0xC2 \<or> 0xF4 < n then 1
         else
           let size = (if n < 0xE0 then 2 else if n < 0xF0 then 3 else 4);
               lo = (if n = 0xE0 then 0xA0 else if n = 0xF0 then 0x90 else 0x80);
               hi = (if n = 0xED then 0x9F else if n = 0xF4 then 0x8F else 0xBF)
           in if length rest < size - 1 then 1
              else if \<not> inRange lo hi (rest ! 0) then 1
              else if size \<le> 2 then 2
              else if \<not> inRange 0x80 0xBF (rest ! 1) then 1
              else if size \<le> 3 then 3
              else if \<not> inRange 0x80 0xBF (rest ! 2) then 1
              else 4)"

declare runeWidth.simps [simp del]

text \<open>
  A regular expression, with the operators the pattern of \<open>windowsXPRegex\<close> uses:
  a literal, \<open>.\<close> (any code point but a newline), concatenation and alternation.
  \<open>matchPrefix re s\<close> lists what is left of \<open>s\<close> after each way \<open>re\<close> matches a
  prefix of it; \<open>MatchString\<close> looks for a match starting anywhere in the string.
  The matcher of Go starts a match at a code point only; a match of a pattern that
  begins with an ASCII literal, as \<open>windowsXPRegex\<close> does, starts at an ASCII byte, and
  such a byte is never inside the UTF-8 sequence of another code point.
\<close>

datatype regex =
  Literal string
| AnyCharNotNL
| Concat regex regex
| Alternate regex regex

fun matchPrefix :: "regex \<Rightarrow> string \<Rightarrow> string list" where
  "matchPrefix (Literal l) s = (if HasPrefix s l then [drop (length l) s] else [])"
| "matchPrefix AnyCharNotNL s =
     (case s of
        [] \<Rightarrow> []
      | c # cs \<Rightarrow> if c = CHR 0x0A then [] else [drop (runeWidth (c # cs)) (c # cs)])"
| "matchPrefix (Concat r1 r2) s = concat (map (matchPrefix r2) (matchPrefix r1 s))"
| "matchPrefix (Alternate r1 r2) s = matchPrefix r1 s @ matchPrefix r2 s"

fun MatchString :: "regex \<Rightarrow> string \<Rightarrow> bool" where
  "MatchString re [] = (matchPrefix re [] \<noteq> [])"
| "MatchString re (c # cs) = (matchPrefix re (c # cs) \<noteq> [] \<or> MatchString re cs)"

text \<open>\<open>regexp.MustCompile(`Windows (?:NT 5.1|XP|NT 5.2|NT 6.0)`)\<close>\<close>

definition windowsXPRegex :: regex where
  "windowsXPRegex =
     Concat (Literal ''Windows '')
       (Alternate (Concat (Literal ''NT 5'') (Concat AnyCharNotNL (Literal ''1'')))
       (Alternate (Literal ''XP'')
       (Alternate (Concat (Literal ''NT 5'') (Concat AnyCharNotNL (Literal ''2'')))
                  (Concat (Literal ''NT 6'') (Concat AnyCharNotNL (Literal ''0''))))))"

definition isWindowsXPUserAgent :: "string \<Rightarrow> bool" where
  "isWindowsXPUserAgent userAgent = MatchString windowsXPRegex userAgent"

section \<open>The bouncer handler\<close>

definition DefaultLang :: string where
  "DefaultLang = ''en-US''"

definition DefaultOS :: string where
  "DefaultOS = ''win''"

text \<open>
  The types of the location map and of the request parameters are declared in files of
  the package other than \<open>handlers.go\<close>; the records below hold the fields the
  handlers read. A location path is modelled by its method \<open>ToString(lang)\<close>.
  \<open>ProductName(s)\<close> and \<open>OsName(s)\<close> are type conversions of a string. The function
  \<open>NewAliasName\<close>, which normalises a product name to a key of the alias table, is an
  argument of \<open>URL\<close> and of \<open>ServeHTTP\<close>. The field \<open>Locations\<close> of the product
  data is \<open>ProductLocations\<close> here: the handler has a field \<open>Locations\<close> too.
\<close>

record ProductData =
  SSLOnly :: bool
  ProductLocations :: "string \<rightharpoonup> (string \<Rightarrow> string)"

record BouncerMap =
  Aliases :: "string \<rightharpoonup> string"
  ProductLocationMap :: "string \<rightharpoonup> ProductData"

record BouncerParams =
  OS :: string
  Product :: string
  Lang :: string
  PrintOnly :: bool
  AttributionCode :: string
  AttributionSig :: string

record BouncerHandler =
  Locations :: BouncerMap
  CacheTime :: int
  PinHttpsHeaderName :: string
  PinnedBaseURLHttp :: string
  PinnedBaseURLHttps :: string
  StubRootURL :: string

text \<open>
  What \<open>ServeHTTP\<close> reads of the request: \<open>Params\<close> is
  \<open>BouncerParamsFromValues(req.URL.Query())\<close>, \<open>UserAgent\<close> is \<open>req.UserAgent()\<close>,
  \<open>HeaderGet\<close> is \<open>req.Header.Get\<close> (the empty string for a header the request
  does not carry).
\<close>

record Request =
  Params :: BouncerParams
  UserAgent :: string
  HeaderGet :: "string \<Rightarrow> string"

text \<open>What \<open>ServeHTTP\<close> does to answer, in order: its calls of \<open>http.Redirect\<close>,
  \<open>http.Error\<close>, \<open>http.NotFound\<close>, \<open>w.Header().Set\<close>, \<open>w.Write\<close> and
  \<open>log.Println\<close>.\<close>

datatype action =
  Redirect string nat
| Error string nat
| NotFound
| HeaderSet string string
| Write string
| LogPrintln error

definition mirrorBaseURL :: "BouncerHandler \<Rightarrow> bool \<Rightarrow> string \<times> error option" where
  "mirrorBaseURL b sslOnly =
     (if PinnedBaseURLHttps b \<noteq> [] \<and> sslOnly then (''https://'' @ PinnedBaseURLHttps b, None)
      else if PinnedBaseURLHttp b \<noteq> [] \<and> \<not> sslOnly then (''http://'' @ PinnedBaseURLHttp b, None)
      else ([], Some ErrNoMirror))"

definition URL ::
  "(string \<Rightarrow> string) \<Rightarrow> BouncerHandler \<Rightarrow> bool \<Rightarrow> string \<Rightarrow> string \<Rightarrow> string
     \<Rightarrow> string \<times> error option" where
  "URL NewAliasName b pinHttps lang os product =
     (let product = (case Aliases (Locations b) (NewAliasName product) of
                       Some aliasedProduct \<Rightarrow> aliasedProduct
                     | None \<Rightarrow> product)
      in case ProductLocationMap (Locations b) product of
           None \<Rightarrow> ([], None)
         | Some productData \<Rightarrow>
             let sslOnly = SSLOnly productData
             in (case ProductLocations productData os of
                   None \<Rightarrow> ([], None)
                 | Some locationPath \<Rightarrow>
                     let (mirrorBase, err) = mirrorBaseURL b (pinHttps \<or> sslOnly)
                     in if err \<noteq> None \<or> mirrorBase = [] then ([], err)
                        else (mirrorBase @ locationPath lang, None)))"

text \<open>
  \<open>url.QueryEscape\<close>: a letter, a digit and \<open>- _ . ~\<close> stand for themselves, a space
  becomes \<open>+\<close>, every other byte becomes \<open>%\<close> and its two upper-case hexadecimal
  digits. \<open>Encode\<close> is \<open>url.Values.Encode\<close> applied to the pairs listed by key in
  ascending order, the order in which it writes them.
\<close>

definition isAlnum :: "char \<Rightarrow> bool" where
  "isAlnum c =
     (let n = (of_char c :: nat)
      in (97 \<le> n \<and> n \<le> 122) \<or> (65 \<le> n \<and> n \<le> 90) \<or> (48 \<le> n \<and> n \<le> 57))"

definition shouldEscape :: "char \<Rightarrow> bool" where
  "shouldEscape c = (\<not> (isAlnum c \<or> c = CHR ''-'' \<or> c = CHR ''_'' \<or> c = CHR ''.'' \<or> c = CHR ''~''))"

definition upperhex :: string where
  "upperhex = ''0123456789ABCDEF''"

fun QueryEscape :: "string \<Rightarrow> string" where
  "QueryEscape [] = []"
| "QueryEscape (c # cs) =
     (if c = CHR '' '' then ''+''
      else if shouldEscape c
        then [CHR ''%'', upperhex ! ((of_char c :: nat) div 16), upperhex ! ((of_char c :: nat) mod 16)]
      else [c]) @ QueryEscape cs"

fun Encode :: "(string \<times> string) list \<Rightarrow> string" where
  "Encode [] = []"
| "Encode [(k, v)] = QueryEscape k @ ''='' @ QueryEscape v"
| "Encode ((k, v) # kvs) = QueryEscape k @ ''='' @ QueryEscape v @ ''&'' @ Encode kvs"

definition stubAttributionURL :: "BouncerHandler \<Rightarrow> BouncerParams \<Rightarrow> string" where
  "stubAttributionURL b reqParams =
     StubRootURL b @ ''?'' @
     Encode [(''attribution_code'', AttributionCode reqParams),
             (''attribution_sig'', AttributionSig reqParams),
             (''lang'', Lang reqParams),
             (''os'', OS reqParams),
             (''product'', Product reqParams)]"

definition shouldPinHttps :: "BouncerHandler \<Rightarrow> Request \<Rightarrow> bool" where
  "shouldPinHttps b req =
     (if PinHttpsHeaderName b = [] then False
      else HeaderGet req (PinHttpsHeaderName b) = ''https'')"

text \<open>\<open>fmt.Sprintf("%d", n)\<close> for \<open>n \<ge> 0\<close>, and \<open>time.Second\<close> in nanoseconds.\<close>

fun formatNat :: "nat \<Rightarrow> string" where
  "formatNat n =
     (if n < 10 then [char_of (48 + n)]
      else formatNat (n div 10) @ [char_of (48 + n mod 10)])"

declare formatNat.simps [simp del]

definition Second :: int where
  "Second = 1000000000"

definition ServeHTTP :: "(string \<Rightarrow> string) \<Rightarrow> BouncerHandler \<Rightarrow> Request \<Rightarrow> action list" where
  "ServeHTTP NewAliasName b req =
     (let reqParams = Params req
      in if Product reqParams = [] then [Redirect ''http://www.mozilla.org/'' 302]
         else
           let reqParams = (if OS reqParams = [] then reqParams\<lparr>OS := DefaultOS\<rparr> else reqParams);
               reqParams = (if Lang reqParams = [] then reqParams\<lparr>Lang := DefaultLang\<rparr> else reqParams);
               isWinXpClient = isWindowsXPUserAgent (UserAgent req)
           in if StubRootURL b \<noteq> [] \<and>
                 AttributionCode reqParams \<noteq> [] \<and>
                 AttributionSig reqParams \<noteq> [] \<and>
                 Contains (Product reqParams) ''-stub'' \<and>
                 \<not> isWinXpClient
              then [Redirect (stubAttributionURL b reqParams) 302]
              else
                let reqParams = (if OS reqParams = ''win'' \<and> isWinXpClient
                                 then reqParams\<lparr>Product := sha1Product (Product reqParams)\<rparr>
                                 else reqParams);
                    (url, err) = URL NewAliasName b (shouldPinHttps b req)
                                   (Lang reqParams) (OS reqParams) (Product reqParams)
                in case err of
                     Some e \<Rightarrow> [Error ''Internal Server Error.'' 500, LogPrintln e]
                   | None \<Rightarrow>
                       if url = [] then [NotFound]
                       else
                         (if CacheTime b > 0
                          then [HeaderSet ''Cache-Control''
                                  (''max-age='' @ formatNat (nat (CacheTime b div Second)))]
                          else []) @
                         (if PrintOnly reqParams
                          then [HeaderSet ''Content-Type'' ''text/plain'', Write url]
                          else [Redirect url 302]))"

section \<open>Facts about the string functions\<close>

lemma runeWidth_ASCII: "(of_char c :: nat) < 128 \<Longrightarrow> runeWidth (c # cs) = 1"
  by (simp only: runeWidth.simps Let_def if_True)

lemma HasPrefix_iff: "HasPrefix s p \<longleftrightarrow> (\<exists>t. s = p @ t)"
  by (induction s p rule: HasPrefix.induct) auto

lemma HasSuffix_iff: "HasSuffix s suf \<longleftrightarrow> (\<exists>t. s = t @ suf)"
proof -
  have "HasSuffix s suf \<longleftrightarrow> (\<exists>t. rev s = rev suf @ t)"
    by (simp add: HasSuffix_def HasPrefix_iff)
  also have "\<dots> \<longleftrightarrow> (\<exists>t. s = t @ suf)"
  proof
    assume "\<exists>t. rev s = rev suf @ t"
    then obtain t where "rev s = rev suf @ t" ..
    then have "rev (rev s) = rev (rev suf @ t)" by simp
    then have "s = rev t @ suf" by simp
    then show "\<exists>t. s = t @ suf" ..
  next
    assume "\<exists>t. s = t @ suf"
    then obtain t where "s = t @ suf" ..
    then have "rev s = rev suf @ rev t" by simp
    then show "\<exists>t. rev s = rev suf @ t" ..
  qed
  finally show ?thesis .
qed

lemma Contains_iff: "Contains s sub \<longleftrightarrow> (\<exists>pre post. s = pre @ sub @ post)"
proof (induction s)
  case Nil
  then show ?case by auto
next
  case (Cons c cs)
  show ?case
  proof
    assume "Contains (c # cs) sub"
    then consider "HasPrefix (c # cs) sub" | "Contains cs sub" by auto
    then show "\<exists>pre post. c # cs = pre @ sub @ post"
    proof cases
      case 1
      then obtain t where "c # cs = sub @ t" by (auto simp: HasPrefix_iff)
      then have "c # cs = [] @ sub @ t" by simp
      then show ?thesis by blast
    next
      case 2
      then obtain pre post where "cs = pre @ sub @ post" using Cons.IH by auto
      then have "c # cs = (c # pre) @ sub @ post" by simp
      then show ?thesis by blast
    qed
  next
    assume "\<exists>pre post. c # cs = pre @ sub @ post"
    then obtain pre post where eq: "c # cs = pre @ sub @ post" by blast
    show "Contains (c # cs) sub"
    proof (cases pre)
      case Nil
      with eq have "HasPrefix (c # cs) sub" by (auto simp: HasPrefix_iff)
      then show ?thesis by simp
    next
      case (Cons d pre')
      with eq have "cs = pre' @ sub @ post" by simp
      then have "Contains cs sub" using Cons.IH by blast
      then show ?thesis by simp
    qed
  qed
qed

lemma Contains_skip: "sep \<notin> set a \<Longrightarrow> Contains (a @ t) (sep # u) = Contains t (sep # u)"
  by (induction a) auto

lemma SplitN_no_sep: "sep \<notin> set s \<Longrightarrow> SplitN s sep (Suc (Suc n)) = [s]"
  by (induction s) auto

lemma SplitN_append: "sep \<notin> set a \<Longrightarrow> SplitN (a @ sep # b) sep (Suc (Suc 0)) = [a, b]"
  by (induction a) auto

lemma split_at_first: "sep \<in> set s \<Longrightarrow> \<exists>a b. s = a @ sep # b \<and> sep \<notin> set a"
  by (metis split_list_first)

lemma SplitN_cases:
  obtains (one) "sep \<notin> set s" "SplitN s sep 2 = [s]"
  | (two) a b where "s = a @ sep # b" "sep \<notin> set a" "SplitN s sep 2 = [a, b]"
proof (cases "sep \<in> set s")
  case True
  then obtain a b where "s = a @ sep # b" "sep \<notin> set a" using split_at_first by metis
  then show ?thesis using two SplitN_append by (simp add: numeral_2_eq_2)
next
  case False
  then show ?thesis using one SplitN_no_sep by (simp add: numeral_2_eq_2)
qed

lemma firefoxSha1Product_idem: "firefoxSha1Product (firefoxSha1Product s) = firefoxSha1Product s"
  by (simp add: firefoxSha1Product_def firefoxSHA1ESRAliasSuffix_def HasSuffix_def)

lemma compareVersions_refl: "compareVersions v v = 0"
  by (simp add: compareVersions_def)

lemma tBird_range:
  "tBirdSha1Product s = s \<or> tBirdSha1Product s = ''43.0b1'' \<or> tBirdSha1Product s = ''38.5.0''
     \<or> tBirdSha1Product s = ''38.5.0-ssl'' \<or> tBirdSha1Product s = ''43.0b1-ssl''"
  by (simp add: tBirdSha1Product_def Let_def tBirdWinXPLastRelease_def tBirdWinXPLastBeta_def)

lemma tBird_fixed:
  "tBirdSha1Product ''43.0b1'' = ''43.0b1''"
  "tBirdSha1Product ''38.5.0'' = ''38.5.0''"
  "tBirdSha1Product ''38.5.0-ssl'' = ''38.5.0-ssl''"
  "tBirdSha1Product ''43.0b1-ssl'' = ''43.0b1-ssl''"
  by (simp_all add: tBirdSha1Product_def Let_def tBirdWinXPLastRelease_def tBirdWinXPLastBeta_def
        compareVersions_refl numeral_2_eq_2)

lemma tBirdSha1Product_idem: "tBirdSha1Product (tBirdSha1Product s) = tBirdSha1Product s"
  using tBird_range [of s] by (auto simp: tBird_fixed)

lemma sha1Product_firefox: "sha1Product (''firefox-'' @ s) = ''firefox-'' @ firefoxSha1Product s"
proof -
  have "SplitN (''firefox'' @ CHR ''-'' # s) CHR ''-'' (Suc (Suc 0)) = [''firefox'', s]"
    by (rule SplitN_append) simp
  then show ?thesis by (simp add: sha1Product_def numeral_2_eq_2)
qed

lemma sha1Product_thunderbird:
  "sha1Product (''thunderbird-'' @ s) = ''thunderbird-'' @ tBirdSha1Product s"
proof -
  have "SplitN (''thunderbird'' @ CHR ''-'' # s) CHR ''-'' (Suc (Suc 0)) = [''thunderbird'', s]"
    by (rule SplitN_append) simp
  then show ?thesis by (simp add: sha1Product_def numeral_2_eq_2)
qed

lemmas version_eval =
  compareVersions_def segmentInt_def Atoi_def TrimRightFunc_def isNotNumber_def IsNumber_def
  isDigit_def digitVal_def

lemmas tBird_eval =
  tBirdSha1Product_def tBirdWinXPLastRelease_def tBirdWinXPLastBeta_def Let_def numeral_2_eq_2

section \<open>Pinning a product twice\<close>

text \<open>
  Claim C3. \<open>sha1Product\<close> is idempotent: for every product string \<open>p\<close>,
  \<open>sha1Product (sha1Product p)\<close> is \<open>sha1Product p\<close>. The only comparison the proof
  looks at is that of a version with itself, which \<open>compareVersions\<close> answers before it
  reads a segment; so the result does not depend on how a segment is read as a number.
\<close>

theorem sha1Product_idempotent: "sha1Product (sha1Product p) = sha1Product p"
proof (cases rule: SplitN_cases [of "CHR ''-''" p])
  case one
  then show ?thesis by (simp add: sha1Product_def)
next
  case (two a b)
  have p: "sha1Product p =
      (if a = ''firefox'' then ''firefox-'' @ firefoxSha1Product b
       else if a = ''thunderbird'' then ''thunderbird-'' @ tBirdSha1Product b
       else p)"
    using two(3) by (simp add: sha1Product_def)
  show ?thesis
  proof (cases "a = ''firefox''")
    case True
    then show ?thesis
      using p sha1Product_firefox [of "firefoxSha1Product b"] firefoxSha1Product_idem [of b]
      by simp
  next
    case False
    show ?thesis
    proof (cases "a = ''thunderbird''")
      case True
      then show ?thesis
        using p sha1Product_thunderbird [of "tBirdSha1Product b"] tBirdSha1Product_idem [of b]
        by simp
    next
      case False
      with \<open>a \<noteq> ''firefox''\<close> p show ?thesis by simp
    qed
  qed
qed

theorem sha1Product_idempotent_witness:
  "sha1Product (sha1Product ''thunderbird-45.0-ssl'') = ''thunderbird-38.5.0-ssl''"
proof -
  have "sha1Product ''thunderbird-45.0-ssl'' = ''thunderbird-38.5.0-ssl''"
    by (simp add: sha1Product_def tBird_eval version_eval)
  then show ?thesis
    using sha1Product_idempotent [of "''thunderbird-45.0-ssl''"] by simp
qed

section \<open>Update packages\<close>

lemma HasSuffix_has_sep: "HasSuffix s (sep # u) \<Longrightarrow> sep \<in> set s"
  by (auto simp: HasSuffix_iff)

lemma Contains_has_sep: "Contains s (sep # u) \<Longrightarrow> sep \<in> set s"
  by (auto simp: Contains_iff)

lemma tBird_keeps_update_package:
  assumes "HasSuffix s ''-complete'' \<or> Contains s ''-partial-''"
  shows "tBirdSha1Product s = s"
proof -
  from assms have "CHR ''-'' \<in> set s"
    using HasSuffix_has_sep Contains_has_sep by blast
  then obtain a b where s: "s = a @ CHR ''-'' # b" and a: "CHR ''-'' \<notin> set a"
    using split_at_first by metis
  then have parts: "SplitN s CHR ''-'' (Suc (Suc 0)) = [a, b]"
    by (simp add: SplitN_append)
  have "b \<noteq> ''ssl''"
  proof
    assume b: "b = ''ssl''"
    from assms show False
    proof
      assume "HasSuffix s ''-complete''"
      then show False by (simp add: s b HasSuffix_def)
    next
      assume "Contains s ''-partial-''"
      then have "Contains (a @ ''-ssl'') (CHR ''-'' # ''partial-'')" by (simp add: s b)
      then have "Contains ''-ssl'' (CHR ''-'' # ''partial-'')"
        using Contains_skip [OF a] by simp
      then show False by simp
    qed
  qed
  moreover have "s \<noteq> ''beta''" "s \<noteq> ''beta-latest''" "s \<noteq> ''ssl''" "s \<noteq> ''latest''"
    using assms by (auto simp: HasSuffix_def)
  ultimately show ?thesis
    using parts by (simp add: tBird_eval)
qed

text \<open>
  Claim C2. A product suffix that denotes a complete or a differential update package
  is returned unchanged by \<open>sha1Product\<close>, in the firefox and in the thunderbird family,
  whatever version it names: first for a suffix made of any version \<open>ver\<close> and the marker
  \<open>-complete\<close>, or of \<open>ver\<close>, \<open>-partial-\<close> and any base version; then for every
  suffix that passes the test of \<open>firefoxSha1Product\<close> for an update package (it ends
  in \<open>-complete\<close> or contains \<open>-partial-\<close>). \<open>tBirdSha1Product\<close> has no such test:
  it returns the suffix because what follows the first \<open>-\<close> is not \<open>ssl\<close>, whatever the
  comparison with the ceiling version answers.
\<close>

theorem update_packages_unchanged:
  "sha1Product (''firefox-'' @ ver @ ''-complete'') = ''firefox-'' @ ver @ ''-complete'' \<and>
   sha1Product (''firefox-'' @ ver @ ''-partial-'' @ base) = ''firefox-'' @ ver @ ''-partial-'' @ base \<and>
   sha1Product (''thunderbird-'' @ ver @ ''-complete'') = ''thunderbird-'' @ ver @ ''-complete'' \<and>
   sha1Product (''thunderbird-'' @ ver @ ''-partial-'' @ base) = ''thunderbird-'' @ ver @ ''-partial-'' @ base \<and>
   (HasSuffix productSuffix ''-complete'' \<or> Contains productSuffix ''-partial-'' \<longrightarrow>
      sha1Product (''firefox-'' @ productSuffix) = ''firefox-'' @ productSuffix \<and>
      sha1Product (''thunderbird-'' @ productSuffix) = ''thunderbird-'' @ productSuffix)"
proof -
  have general: "sha1Product (''firefox-'' @ s) = ''firefox-'' @ s \<and>
      sha1Product (''thunderbird-'' @ s) = ''thunderbird-'' @ s"
    if "HasSuffix s ''-complete'' \<or> Contains s ''-partial-''" for s
  proof -
    have "firefoxSha1Product s = s"
      using that by (auto simp: firefoxSha1Product_def)
    moreover have "tBirdSha1Product s = s"
      using that by (rule tBird_keeps_update_package)
    ultimately show ?thesis
      by (simp only: sha1Product_firefox sha1Product_thunderbird)
  qed
  have c: "HasSuffix (ver @ ''-complete'') ''-complete''"
    unfolding HasSuffix_iff by blast
  have p: "Contains (ver @ ''-partial-'' @ base) ''-partial-''"
    unfolding Contains_iff by blast
  show ?thesis
    using general [of "ver @ ''-complete''"] general [of "ver @ ''-partial-'' @ base"]
      general [of productSuffix] c p
    by simp
qed

theorem update_packages_unchanged_witness:
  "HasSuffix ''45.0b1-complete'' ''-complete'' \<and>
   sha1Product ''thunderbird-45.0b1-complete'' = ''thunderbird-45.0b1-complete'' \<and>
   sha1Product ''firefox-43.0.1-partial-41.0.2build1'' = ''firefox-43.0.1-partial-41.0.2build1''"
  using update_packages_unchanged [of "''43.0.1''" "''41.0.2build1''" "''45.0b1-complete''"]
  by (simp add: HasSuffix_def)

section \<open>The firefox alias\<close>

text \<open>
  \<open>sha1Product\<close> does not answer \<open>firefox-latest\<close> with \<open>firefox-43.0.1\<close>: the
  handlers hold no ceiling version for the firefox family.
\<close>

theorem firefox_latest_not_ceiling: "sha1Product ''firefox-latest'' \<noteq> ''firefox-43.0.1''"
  by (simp add: sha1Product_def firefoxSha1Product_def HasSuffix_def
        firefoxSHA1ESRAliasSuffix_def numeral_2_eq_2)

text \<open>
  Claim C1, amended. \<open>sha1Product\<close> applied to \<open>firefox-latest\<close> returns
  \<open>firefox-sha1\<close>: every firefox suffix that neither ends in \<open>-sha1\<close> or
  \<open>-complete\<close> nor contains \<open>-partial-\<close>, a channel alias without explicit version
  among them, is replaced by the fixed alias suffix \<open>sha1\<close>
  (\<open>firefoxSHA1ESRAliasSuffix\<close>).
\<close>

theorem firefox_alias_sha1:
  "sha1Product ''firefox-latest'' = ''firefox-sha1'' \<and>
   (\<not> HasSuffix productSuffix ''-sha1'' \<and> \<not> HasSuffix productSuffix ''-complete'' \<and>
    \<not> Contains productSuffix ''-partial-'' \<longrightarrow>
      sha1Product (''firefox-'' @ productSuffix) = ''firefox-sha1'')"
proof -
  have "firefoxSha1Product ''latest'' = ''sha1''"
    by (simp add: firefoxSha1Product_def HasSuffix_def firefoxSHA1ESRAliasSuffix_def)
  then have "sha1Product (''firefox-'' @ ''latest'') = ''firefox-'' @ ''sha1''"
    by (simp only: sha1Product_firefox)
  moreover have "sha1Product (''firefox-'' @ productSuffix) = ''firefox-'' @ ''sha1''"
    if "\<not> HasSuffix productSuffix ''-sha1''" "\<not> HasSuffix productSuffix ''-complete''"
      "\<not> Contains productSuffix ''-partial-''"
  proof -
    have "firefoxSha1Product productSuffix = ''sha1''"
      using that by (simp add: firefoxSha1Product_def firefoxSHA1ESRAliasSuffix_def)
    then show ?thesis by (simp only: sha1Product_firefox)
  qed
  ultimately show ?thesis by simp
qed

theorem firefox_alias_sha1_witness:
  "\<not> HasSuffix ''beta-latest'' ''-sha1'' \<and> \<not> HasSuffix ''beta-latest'' ''-complete'' \<and>
   \<not> Contains ''beta-latest'' ''-partial-'' \<and> sha1Product ''firefox-beta-latest'' = ''firefox-sha1''"
  using firefox_alias_sha1 [of "''beta-latest''"] by (simp add: HasSuffix_def)

section \<open>Comparing versions of different lengths\<close>

text \<open>Two versions with the same number of segments compare antisymmetrically.\<close>

lemma compareParts_antisym_same_length:
  "length aParts = length bParts \<Longrightarrow> compareParts aParts bParts = - compareParts bParts aParts"
  by (induction aParts bParts rule: list_induct2) auto

lemma compareVersions_antisym_same_length:
  assumes "length (Split a CHR ''.'') = length (Split b CHR ''.'')"
  shows "compareVersions a b = - compareVersions b a"
proof (cases "a = b")
  case True
  then show ?thesis by (simp add: compareVersions_def)
next
  case False
  then have "b \<noteq> a" by blast
  with False show ?thesis
    by (simp only: compareVersions_def if_False compareParts_antisym_same_length [OF assms])
qed

text \<open>
  Claim C5 asks for \<open>compareVersions a b = - compareVersions b a\<close> for every pair of
  versions, also when one has more segments than the other. The loop of
  \<open>compareVersions\<close> runs over the segments of its first argument only: when they run out
  with no difference found it answers 0, and the segments the second argument has left
  are never looked at. So \<open>1\<close> against \<open>1.0\<close> is 0, while \<open>1.0\<close> against \<open>1\<close> is 1.
\<close>

theorem compareVersions_shorter_first:
  "compareVersions ''1'' ''1.0'' = 0 \<and> compareVersions ''1.0'' ''1'' = 1"
  by (simp add: version_eval)

section \<open>The number read from a segment\<close>

lemma TrimRightFunc_split:
  "\<exists>rest. s = TrimRightFunc s f @ rest \<and> (\<forall>c\<in>set rest. f c)"
proof -
  have "TrimRightFunc s f @ rev (takeWhile f (rev s)) = rev (takeWhile f (rev s) @ dropWhile f (rev s))"
    by (simp only: TrimRightFunc_def rev_append)
  also have "\<dots> = s"
    by (simp only: takeWhile_dropWhile_id rev_rev_ident)
  finally have "s = TrimRightFunc s f @ rev (takeWhile f (rev s))" by (rule sym)
  moreover have "\<forall>c\<in>set (rev (takeWhile f (rev s))). f c"
    by (auto dest: set_takeWhileD)
  ultimately show ?thesis by blast
qed

lemma TrimRightFunc_last: "TrimRightFunc s f \<noteq> [] \<Longrightarrow> \<not> f (last (TrimRightFunc s f))"
  by (simp add: TrimRightFunc_def last_rev hd_dropWhile)



lemma digitVal_nonneg: "isDigit c \<Longrightarrow> 0 \<le> digitVal c"
  by (simp add: isDigit_def digitVal_def)

lemma foldl_digits_mono:
  "\<forall>c\<in>set cs. isDigit c \<Longrightarrow> 0 \<le> n \<Longrightarrow> n \<le> foldl (\<lambda>n c. 10 * n + digitVal c) n cs"
proof (induction cs arbitrary: n)
  case Nil
  then show ?case by simp
next
  case (Cons c cs)
  let ?n = "10 * n + digitVal c"
  from Cons.prems have d: "0 \<le> digitVal c" by (simp add: digitVal_nonneg)
  with Cons.prems have n: "0 \<le> ?n" "n \<le> ?n" by simp_all
  from Cons.prems have "\<forall>c\<in>set cs. isDigit c" by simp
  then have "?n \<le> foldl (\<lambda>n c. 10 * n + digitVal c) ?n cs"
    using n(1) by (rule Cons.IH)
  with n(2) have "n \<le> foldl (\<lambda>n c. 10 * n + digitVal c) ?n cs" by (rule order_trans)
  then show ?case by simp
qed

lemma parseUint_digits:
  "\<forall>c\<in>set cs. isDigit c \<Longrightarrow> 0 \<le> n \<Longrightarrow>
     parseUint cs n =
       (if cs \<noteq> [] \<and> foldl (\<lambda>n c. 10 * n + digitVal c) n cs \<ge> 2 ^ 64 then Inl ErrRange
        else Inr (foldl (\<lambda>n c. 10 * n + digitVal c) n cs))"
proof (induction cs arbitrary: n)
  case Nil
  then show ?case by simp
next
  case (Cons c cs)
  let ?n = "10 * n + digitVal c"
  let ?v = "foldl (\<lambda>n c. 10 * n + digitVal c) ?n cs"
  from Cons.prems have c: "isDigit c" and cs: "\<forall>c\<in>set cs. isDigit c" by simp_all
  from c Cons.prems have n: "0 \<le> ?n" using digitVal_nonneg [of c] by simp
  have mono: "?n \<le> ?v" using cs n by (rule foldl_digits_mono)
  show ?case
  proof (cases "?n \<ge> 2 ^ 64")
    case True
    with mono have "?v \<ge> 2 ^ 64" by (rule order_trans [rotated])
    with True c show ?thesis by simp
  next
    case False
    have "parseUint (c # cs) n = parseUint cs ?n" using c False by simp
    also have "\<dots> = (if cs \<noteq> [] \<and> ?v \<ge> 2 ^ 64 then Inl ErrRange else Inr ?v)"
      using cs n by (rule Cons.IH)
    also have "\<dots> = (if ?v \<ge> 2 ^ 64 then Inl ErrRange else Inr ?v)"
      using False by (cases cs) simp_all
    finally show ?thesis by simp
  qed
qed

lemma parseUint_non_digit:
  "\<exists>c\<in>set cs. \<not> isDigit c \<Longrightarrow> \<exists>e. parseUint cs n = Inl e"
  by (induction cs arbitrary: n) auto


lemma Atoi_body:
  assumes "r \<noteq> []"
    and "body = (if r \<noteq> [] \<and> (hd r = CHR ''+'' \<or> hd r = CHR ''-'') then tl r else r)"
    and "body \<noteq> []"
  shows "Atoi r =
    (case parseUint body 0 of
       Inl e \<Rightarrow> Inl e
     | Inr un \<Rightarrow>
         if hd r \<noteq> CHR ''-'' \<and> un \<ge> 2 ^ 63 then Inl ErrRange
         else if hd r = CHR ''-'' \<and> un > 2 ^ 63 then Inl ErrRange
         else Inr (if hd r = CHR ''-'' then - un else un))"
  using assms by (auto simp: Atoi_def Let_def)

text \<open>
  A non-digit at the head of what is left of a segment does not always make the parse
  fail: \<open>strconv.Atoi\<close> reads a leading \<open>+\<close> or \<open>-\<close> as the sign of the number. The
  segment \<open>+5\<close> keeps its \<open>+\<close>, has the value 5 and not 0, and \<open>+5\<close> compares greater
  than \<open>4\<close>.
\<close>

theorem segmentInt_signed:
  "TrimRightFunc ''+5'' isNotNumber = ''+5'' \<and> isNotNumber CHR ''+'' \<and>
   segmentInt ''+5'' = 5 \<and> compareVersions ''+5'' ''4'' = 1"
  by (simp add: version_eval)

text \<open>
  Claim C6, amended. \<open>compareVersions\<close> reads an ASCII segment \<open>ver\<close> as follows. It
  strips the longest tail of non-digits: \<open>ver\<close> is the remainder \<open>r\<close> followed by non-digits only,
  and \<open>r\<close>, unless empty, ends in a digit. A leading \<open>+\<close> or \<open>-\<close> of \<open>r\<close> is the
  sign; \<open>body\<close> is \<open>r\<close> without it. The value of the segment is 0, and no error is
  raised, when \<open>r\<close> is empty or \<open>body\<close> holds a non-digit. Otherwise \<open>body\<close> is a
  decimal number \<open>v\<close>, and the value is \<open>v\<close> with its sign if that fits a 64-bit
  \<open>int\<close>, and 0 if it does not. So the segment \<open>1esr\<close> has the value 1 and the segment
  \<open>0b2\<close> the value 0.
\<close>

theorem segmentInt_value:
  assumes ascii: "isASCII ver"
    and r: "r = TrimRightFunc ver isNotNumber"
    and body: "body = (if r \<noteq> [] \<and> (hd r = CHR ''+'' \<or> hd r = CHR ''-'') then tl r else r)"
    and v: "v = foldl (\<lambda>n c. 10 * n + digitVal c) 0 body"
  shows "(\<exists>rest. ver = r @ rest \<and> (\<forall>c\<in>set rest. \<not> isDigit c)) \<and>
         (r \<noteq> [] \<longrightarrow> isDigit (last r)) \<and>
         (r = [] \<or> (\<exists>c\<in>set body. \<not> isDigit c) \<longrightarrow> segmentInt ver = 0) \<and>
         (r \<noteq> [] \<and> (\<forall>c\<in>set body. isDigit c) \<longrightarrow>
            segmentInt ver =
              (if hd r = CHR ''-'' then (if v \<le> 2 ^ 63 then - v else 0)
               else (if v < 2 ^ 63 then v else 0))) \<and>
         segmentInt ''1esr'' = 1 \<and> segmentInt ''0b2'' = 0"
proof -
  have nn: "isNotNumber = (\<lambda>c. \<not> isDigit c)"
    by (simp add: isNotNumber_def IsNumber_def fun_eq_iff)
  have p1: "\<exists>rest. ver = r @ rest \<and> (\<forall>c\<in>set rest. \<not> isDigit c)"
    using TrimRightFunc_split [of ver isNotNumber] by (simp add: r nn)
  have p2: "isDigit (last r)" if "r \<noteq> []"
    using that TrimRightFunc_last [of ver isNotNumber] by (simp add: r nn)
  have seg: "segmentInt ver = (case Atoi r of Inl err \<Rightarrow> 0 | Inr n \<Rightarrow> n)"
    by (simp add: segmentInt_def r)
  have nonempty: "body \<noteq> []" if "r \<noteq> []"
  proof
    assume "body = []"
    with that body have "tl r = []" and sign: "hd r = CHR ''+'' \<or> hd r = CHR ''-''"
      by (auto split: if_splits)
    with that have "last r = hd r" by (cases r) auto
    with p2 [OF that] sign show False by (auto simp: isDigit_def)
  qed
  have p3: "segmentInt ver = 0" if "r = [] \<or> (\<exists>c\<in>set body. \<not> isDigit c)"
  proof (cases "r = []")
    case True
    then show ?thesis by (simp add: seg Atoi_def)
  next
    case False
    with that have "\<exists>c\<in>set body. \<not> isDigit c" by simp
    then obtain e where "parseUint body 0 = Inl e"
      using parseUint_non_digit by blast
    then show ?thesis
      using Atoi_body [OF False body nonempty [OF False]] by (simp add: seg)
  qed
  have p4: "segmentInt ver =
      (if hd r = CHR ''-'' then (if v \<le> 2 ^ 63 then - v else 0)
       else (if v < 2 ^ 63 then v else 0))"
    if "r \<noteq> [] \<and> (\<forall>c\<in>set body. isDigit c)"
  proof -
    from that have ne: "r \<noteq> []" and digits: "\<forall>c\<in>set body. isDigit c" by simp_all
    have "parseUint body 0 = (if body \<noteq> [] \<and> v \<ge> 2 ^ 64 then Inl ErrRange else Inr v)"
      unfolding v using digits by (rule parseUint_digits) simp
    then show ?thesis
      using Atoi_body [OF ne body nonempty [OF ne]] by (auto simp: seg)
  qed
  have p5: "segmentInt ''1esr'' = 1 \<and> segmentInt ''0b2'' = 0"
    by (simp add: version_eval)
  from p1 p2 p3 p4 p5 show ?thesis by blast
qed

theorem segmentInt_value_witness:
  "isASCII ''38esr'' \<and> ''38'' = TrimRightFunc ''38esr'' isNotNumber \<and>
   isDigit (last ''38'') \<and> segmentInt ''38esr'' = 38"
  using segmentInt_value [of "''38esr''" "''38''" "''38''" 38]
  by (simp add: isASCII_def TrimRightFunc_def isNotNumber_def IsNumber_def isDigit_def
        digitVal_def)

section \<open>The mirror base\<close>

text \<open>
  When HTTPS is required and no HTTPS base is configured, \<open>mirrorBaseURL\<close> does not fall
  back to the HTTP base: its second test asks for \<open>!sslOnly\<close>, so the request ends in
  the error.
\<close>

theorem mirrorBaseURL_no_http_fallback:
  "mirrorBaseURL
     \<lparr>Locations = \<lparr>Aliases = Map.empty, ProductLocationMap = Map.empty\<rparr>, CacheTime = 0,
      PinHttpsHeaderName = [], PinnedBaseURLHttp = ''download.cdn.mozilla.net/pub'',
      PinnedBaseURLHttps = [], StubRootURL = []\<rparr> True
   = ([], Some ErrNoMirror)"
  by (simp add: mirrorBaseURL_def)

text \<open>
  Claim C4, amended. For every configuration of the two bases and every flag,
  \<open>mirrorBaseURL\<close> returns the HTTPS base with the scheme \<open>https://\<close> when HTTPS is
  required and an HTTPS base is configured; it returns the HTTP base with the scheme
  \<open>http://\<close> when HTTPS is not required and an HTTP base is configured; in every other
  case, and in no other, it signals the error that no mirror was found. In particular
  an HTTP base is never the answer to a request that requires HTTPS.
\<close>

theorem mirrorBaseURL_selects:
  "(sslOnly \<and> PinnedBaseURLHttps b \<noteq> [] \<longrightarrow>
      mirrorBaseURL b sslOnly = (''https://'' @ PinnedBaseURLHttps b, None)) \<and>
   (\<not> sslOnly \<and> PinnedBaseURLHttp b \<noteq> [] \<longrightarrow>
      mirrorBaseURL b sslOnly = (''http://'' @ PinnedBaseURLHttp b, None)) \<and>
   ((sslOnly \<and> PinnedBaseURLHttps b = []) \<or> (\<not> sslOnly \<and> PinnedBaseURLHttp b = []) \<longrightarrow>
      mirrorBaseURL b sslOnly = ([], Some ErrNoMirror)) \<and>
   (snd (mirrorBaseURL b sslOnly) \<noteq> None \<longleftrightarrow>
      (sslOnly \<and> PinnedBaseURLHttps b = []) \<or> (\<not> sslOnly \<and> PinnedBaseURLHttp b = []))"
  by (auto simp: mirrorBaseURL_def)

theorem mirrorBaseURL_selects_witness:
  "mirrorBaseURL
     \<lparr>Locations = \<lparr>Aliases = Map.empty, ProductLocationMap = Map.empty\<rparr>, CacheTime = 0,
      PinHttpsHeaderName = [], PinnedBaseURLHttp = ''download.cdn.mozilla.net/pub'',
      PinnedBaseURLHttps = ''download-installer.cdn.mozilla.net/pub'', StubRootURL = []\<rparr> True
   = (''https://download-installer.cdn.mozilla.net/pub'', None)"
  using mirrorBaseURL_selects [of True
     "\<lparr>Locations = \<lparr>Aliases = Map.empty, ProductLocationMap = Map.empty\<rparr>, CacheTime = 0,
      PinHttpsHeaderName = [], PinnedBaseURLHttp = ''download.cdn.mozilla.net/pub'',
      PinnedBaseURLHttps = ''download-installer.cdn.mozilla.net/pub'', StubRootURL = []\<rparr>"]
  by simp

section \<open>A request without a product\<close>

text \<open>
  Claim C9. When the product parameter of a request is empty, \<open>ServeHTTP\<close> answers with
  one redirect, status 302, to \<open>http://www.mozilla.org/\<close>, and does nothing else (no
  error is written or logged), whatever the other parameters, the headers and the
  configuration of the handler are.
\<close>

theorem no_product_fallback:
  "Product (Params req) = [] \<Longrightarrow>
     ServeHTTP NewAliasName b req = [Redirect ''http://www.mozilla.org/'' 302]"
  by (simp add: ServeHTTP_def)

theorem no_product_fallback_witness:
  "ServeHTTP (\<lambda>s. s)
     \<lparr>Locations = \<lparr>Aliases = Map.empty, ProductLocationMap = Map.empty\<rparr>, CacheTime = 0,
      PinHttpsHeaderName = [], PinnedBaseURLHttp = [], PinnedBaseURLHttps = [],
      StubRootURL = ''https://stubattribution.example/''\<rparr>
     \<lparr>Params = \<lparr>OS = ''mac'', Product = [], Lang = ''en-US'', PrintOnly = True,
                 AttributionCode = ''c'', AttributionSig = ''s''\<rparr>,
      UserAgent = ''Mozilla/5.0 (Windows NT 5.1)'', HeaderGet = (\<lambda>h. [])\<rparr>
   = [Redirect ''http://www.mozilla.org/'' 302]"
  by (rule no_product_fallback) simp

section \<open>The stub attribution redirect\<close>

lemma stubAttributionURL_explicit:
  "stubAttributionURL b p =
     StubRootURL b @ ''?attribution_code='' @ QueryEscape (AttributionCode p) @
     ''&attribution_sig='' @ QueryEscape (AttributionSig p) @
     ''&lang='' @ QueryEscape (Lang p) @
     ''&os='' @ QueryEscape (OS p) @
     ''&product='' @ QueryEscape (Product p)"
  by (simp add: stubAttributionURL_def shouldEscape_def isAlnum_def)

lemma Contains_nonempty: "Contains s (c # u) \<Longrightarrow> s \<noteq> []"
  by auto

lemma default_OS:
  "(if OS p = [] then p\<lparr>OS := d\<rparr> else p) = p\<lparr>OS := (if OS p = [] then d else OS p)\<rparr>"
  by simp

lemma default_Lang:
  "(if Lang p = [] then p\<lparr>Lang := d\<rparr> else p) = p\<lparr>Lang := (if Lang p = [] then d else Lang p)\<rparr>"
  by simp

lemma pinned_Product:
  "(if c then p\<lparr>Product := x\<rparr> else p) = p\<lparr>Product := (if c then x else Product p)\<rparr>"
  by simp

lemma closed_gate:
  assumes "\<not> (StubRootURL b \<noteq> [] \<and> AttributionCode (Params req) \<noteq> [] \<and>
       AttributionSig (Params req) \<noteq> [] \<and> Contains (Product (Params req)) ''-stub'' \<and>
       \<not> isWindowsXPUserAgent (UserAgent req))"
  shows "ServeHTTP NewAliasName b req =
     (if Product (Params req) = [] then [Redirect ''http://www.mozilla.org/'' 302]
      else
        (case URL NewAliasName b (shouldPinHttps b req)
                (if Lang (Params req) = [] then DefaultLang else Lang (Params req))
                (if OS (Params req) = [] then DefaultOS else OS (Params req))
                (if (if OS (Params req) = [] then DefaultOS else OS (Params req)) = ''win'' \<and>
                    isWindowsXPUserAgent (UserAgent req)
                 then sha1Product (Product (Params req))
                 else Product (Params req)) of
           (url, err) \<Rightarrow>
             (case err of
                Some e \<Rightarrow> [Error ''Internal Server Error.'' 500, LogPrintln e]
              | None \<Rightarrow>
                  if url = [] then [NotFound]
                  else
                    (if CacheTime b > 0
                     then [HeaderSet ''Cache-Control''
                             (''max-age='' @ formatNat (nat (CacheTime b div Second)))]
                     else []) @
                    (if PrintOnly (Params req)
                     then [HeaderSet ''Content-Type'' ''text/plain'', Write url]
                     else [Redirect url 302]))))"
  by (simp add: assms ServeHTTP_def Let_def default_OS default_Lang pinned_Product
      split del: if_split cong: if_cong option.case_cong prod.case_cong)

lemma open_gate:
  assumes "StubRootURL b \<noteq> [] \<and> AttributionCode (Params req) \<noteq> [] \<and>
    AttributionSig (Params req) \<noteq> [] \<and> Contains (Product (Params req)) ''-stub'' \<and>
    \<not> isWindowsXPUserAgent (UserAgent req)"
  shows "ServeHTTP NewAliasName b req =
     [Redirect
        (stubAttributionURL b
           (Params req
              \<lparr>OS := if OS (Params req) = [] then DefaultOS else OS (Params req),
               Lang := if Lang (Params req) = [] then DefaultLang else Lang (Params req)\<rparr>))
        302]"
proof -
  from assms have "Product (Params req) \<noteq> []" using Contains_nonempty by blast
  then show ?thesis
    by (simp add: assms ServeHTTP_def Let_def default_OS default_Lang
          split del: if_split cong: if_cong)
qed

lemma URL_absent:
  assumes "ProductLocationMap (Locations b)
      (case Aliases (Locations b) (N product) of None \<Rightarrow> product | Some a \<Rightarrow> a) = None"
  shows "URL N b pin lang os product = ([], None)"
  using assms by (simp add: URL_def)

text \<open>
  Claim C7. \<open>ServeHTTP\<close> answers with the stub attribution redirect if and only if a
  stub root URL is configured, \<open>attribution_code\<close> and \<open>attribution_sig\<close> are both
  non-empty, the product contains \<open>-stub\<close> and the client is not a Windows XP or Vista
  client. If these conditions hold, the answer is one redirect, status 302, to the stub
  root URL followed by the query parameters \<open>attribution_code\<close>, \<open>attribution_sig\<close>,
  \<open>lang\<close>, \<open>os\<close> and \<open>product\<close>, each URL-encoded; the language and the system are
  the defaults when the request names none, and the product is the one requested, not a
  pinned one. If one of them fails, no stub URL is built: the answer is the redirect to
  \<open>http://www.mozilla.org/\<close> when the request names no product, and otherwise what
  the lookup of the product, pinned for a Windows XP or Vista client on \<open>win\<close>, gives
  (the error 500, 404, or the mirror URL, printed or redirected to). Neither the stub
  root URL nor the attribution parameters appear in it.
\<close>

theorem stub_redirect_gate:
  "(StubRootURL b \<noteq> [] \<and> AttributionCode (Params req) \<noteq> [] \<and>
    AttributionSig (Params req) \<noteq> [] \<and> Contains (Product (Params req)) ''-stub'' \<and>
    \<not> isWindowsXPUserAgent (UserAgent req) \<longrightarrow>
      ServeHTTP NewAliasName b req =
        [Redirect
           (StubRootURL b @ ''?attribution_code='' @ QueryEscape (AttributionCode (Params req)) @
            ''&attribution_sig='' @ QueryEscape (AttributionSig (Params req)) @
            ''&lang='' @
              QueryEscape (if Lang (Params req) = [] then DefaultLang else Lang (Params req)) @
            ''&os='' @ QueryEscape (if OS (Params req) = [] then DefaultOS else OS (Params req)) @
            ''&product='' @ QueryEscape (Product (Params req)))
           302]) \<and>
   (\<not> (StubRootURL b \<noteq> [] \<and> AttributionCode (Params req) \<noteq> [] \<and>
    AttributionSig (Params req) \<noteq> [] \<and> Contains (Product (Params req)) ''-stub'' \<and>
    \<not> isWindowsXPUserAgent (UserAgent req)) \<longrightarrow>
      ServeHTTP NewAliasName b req =
     (if Product (Params req) = [] then [Redirect ''http://www.mozilla.org/'' 302]
      else
        (case URL NewAliasName b (shouldPinHttps b req)
                (if Lang (Params req) = [] then DefaultLang else Lang (Params req))
                (if OS (Params req) = [] then DefaultOS else OS (Params req))
                (if (if OS (Params req) = [] then DefaultOS else OS (Params req)) = ''win'' \<and>
                    isWindowsXPUserAgent (UserAgent req)
                 then sha1Product (Product (Params req))
                 else Product (Params req)) of
           (url, err) \<Rightarrow>
             (case err of
                Some e \<Rightarrow> [Error ''Internal Server Error.'' 500, LogPrintln e]
              | None \<Rightarrow>
                  if url = [] then [NotFound]
                  else
                    (if CacheTime b > 0
                     then [HeaderSet ''Cache-Control''
                             (''max-age='' @ formatNat (nat (CacheTime b div Second)))]
                     else []) @
                    (if PrintOnly (Params req)
                     then [HeaderSet ''Content-Type'' ''text/plain'', Write url]
                     else [Redirect url 302])))))"
  (is "(?gate \<longrightarrow> ServeHTTP NewAliasName b req = [Redirect ?url 302]) \<and> (\<not> ?gate \<longrightarrow> ?closed)")
proof (intro conjI impI)
  assume gate: ?gate
  have "stubAttributionURL b
           (Params req
              \<lparr>OS := if OS (Params req) = [] then DefaultOS else OS (Params req),
               Lang := if Lang (Params req) = [] then DefaultLang else Lang (Params req)\<rparr>)
        = ?url"
    by (simp add: stubAttributionURL_explicit)
  with open_gate [OF gate] show "ServeHTTP NewAliasName b req = [Redirect ?url 302]"
    by (simp only:)
next
  assume "\<not> ?gate"
  then show ?closed by (rule closed_gate)
qed

theorem stub_redirect_gate_witness:
  "ServeHTTP (\<lambda>s. s)
     \<lparr>Locations = \<lparr>Aliases = Map.empty, ProductLocationMap = Map.empty\<rparr>, CacheTime = 0,
      PinHttpsHeaderName = [], PinnedBaseURLHttp = ''download.cdn.mozilla.net/pub'',
      PinnedBaseURLHttps = [], StubRootURL = ''https://stubattribution.example/''\<rparr>
     \<lparr>Params = \<lparr>OS = [], Product = ''firefox-stub'', Lang = [], PrintOnly = False,
                 AttributionCode = ''a b'', AttributionSig = ''sig''\<rparr>,
      UserAgent = ''Mozilla/5.0 (Windows NT 6.1)'', HeaderGet = (\<lambda>h. [])\<rparr>
   = [Redirect ''https://stubattribution.example/?attribution_code=a+b&attribution_sig=sig&lang=en-US&os=win&product=firefox-stub'' 302] \<and>
   ServeHTTP (\<lambda>s. s)
     \<lparr>Locations = \<lparr>Aliases = Map.empty, ProductLocationMap = Map.empty\<rparr>, CacheTime = 0,
      PinHttpsHeaderName = [], PinnedBaseURLHttp = ''download.cdn.mozilla.net/pub'',
      PinnedBaseURLHttps = [], StubRootURL = []\<rparr>
     \<lparr>Params = \<lparr>OS = [], Product = ''firefox-stub'', Lang = [], PrintOnly = False,
                 AttributionCode = ''a b'', AttributionSig = ''sig''\<rparr>,
      UserAgent = ''Mozilla/5.0 (Windows NT 6.1)'', HeaderGet = (\<lambda>h. [])\<rparr>
   = [NotFound]"
proof
  show "ServeHTTP (\<lambda>s. s)
     \<lparr>Locations = \<lparr>Aliases = Map.empty, ProductLocationMap = Map.empty\<rparr>, CacheTime = 0,
      PinHttpsHeaderName = [], PinnedBaseURLHttp = ''download.cdn.mozilla.net/pub'',
      PinnedBaseURLHttps = [], StubRootURL = ''https://stubattribution.example/''\<rparr>
     \<lparr>Params = \<lparr>OS = [], Product = ''firefox-stub'', Lang = [], PrintOnly = False,
                 AttributionCode = ''a b'', AttributionSig = ''sig''\<rparr>,
      UserAgent = ''Mozilla/5.0 (Windows NT 6.1)'', HeaderGet = (\<lambda>h. [])\<rparr>
   = [Redirect ''https://stubattribution.example/?attribution_code=a+b&attribution_sig=sig&lang=en-US&os=win&product=firefox-stub'' 302]"
    using stub_redirect_gate [of
     "\<lparr>Locations = \<lparr>Aliases = Map.empty, ProductLocationMap = Map.empty\<rparr>, CacheTime = 0,
      PinHttpsHeaderName = [], PinnedBaseURLHttp = ''download.cdn.mozilla.net/pub'',
      PinnedBaseURLHttps = [], StubRootURL = ''https://stubattribution.example/''\<rparr>"
     "\<lparr>Params = \<lparr>OS = [], Product = ''firefox-stub'', Lang = [], PrintOnly = False,
                 AttributionCode = ''a b'', AttributionSig = ''sig''\<rparr>,
      UserAgent = ''Mozilla/5.0 (Windows NT 6.1)'', HeaderGet = (\<lambda>h. [])\<rparr>"
     "\<lambda>s. s"]
    by (simp add: isWindowsXPUserAgent_def windowsXPRegex_def runeWidth_ASCII DefaultLang_def
          DefaultOS_def shouldEscape_def isAlnum_def upperhex_def)
  show "ServeHTTP (\<lambda>s. s)
     \<lparr>Locations = \<lparr>Aliases = Map.empty, ProductLocationMap = Map.empty\<rparr>, CacheTime = 0,
      PinHttpsHeaderName = [], PinnedBaseURLHttp = ''download.cdn.mozilla.net/pub'',
      PinnedBaseURLHttps = [], StubRootURL = []\<rparr>
     \<lparr>Params = \<lparr>OS = [], Product = ''firefox-stub'', Lang = [], PrintOnly = False,
                 AttributionCode = ''a b'', AttributionSig = ''sig''\<rparr>,
      UserAgent = ''Mozilla/5.0 (Windows NT 6.1)'', HeaderGet = (\<lambda>h. [])\<rparr>
   = [NotFound]"
    using stub_redirect_gate [of
     "\<lparr>Locations = \<lparr>Aliases = Map.empty, ProductLocationMap = Map.empty\<rparr>, CacheTime = 0,
      PinHttpsHeaderName = [], PinnedBaseURLHttp = ''download.cdn.mozilla.net/pub'',
      PinnedBaseURLHttps = [], StubRootURL = []\<rparr>"
     "\<lparr>Params = \<lparr>OS = [], Product = ''firefox-stub'', Lang = [], PrintOnly = False,
                 AttributionCode = ''a b'', AttributionSig = ''sig''\<rparr>,
      UserAgent = ''Mozilla/5.0 (Windows NT 6.1)'', HeaderGet = (\<lambda>h. [])\<rparr>"
     "\<lambda>s. s"]
    by (simp add: isWindowsXPUserAgent_def windowsXPRegex_def runeWidth_ASCII DefaultLang_def
          DefaultOS_def URL_def)
qed

text \<open>
  Claim C10. When the conditions of the stub attribution redirect hold, the answer is
  the redirect to the stub URL whatever the location map \<open>m\<close> of the handler holds:
  the map is not consulted. In particular, when the product is absent from the map, so
  that the handler without a stub root URL answers 404, the request still receives the
  stub redirect.
\<close>

theorem stub_redirect_ignores_map:
  assumes "StubRootURL b \<noteq> [] \<and> AttributionCode (Params req) \<noteq> [] \<and>
    AttributionSig (Params req) \<noteq> [] \<and> Contains (Product (Params req)) ''-stub'' \<and>
    \<not> isWindowsXPUserAgent (UserAgent req)"
  shows "ServeHTTP NewAliasName (b\<lparr>Locations := m\<rparr>) req =
           [Redirect
              (stubAttributionURL b
                 (Params req
                    \<lparr>OS := if OS (Params req) = [] then DefaultOS else OS (Params req),
                     Lang := if Lang (Params req) = [] then DefaultLang else Lang (Params req)\<rparr>))
              302] \<and>
         (ProductLocationMap m
            (case Aliases m (NewAliasName (Product (Params req))) of
               None \<Rightarrow> Product (Params req)
             | Some aliasedProduct \<Rightarrow> aliasedProduct) = None \<longrightarrow>
          ServeHTTP NewAliasName (b\<lparr>Locations := m, StubRootURL := []\<rparr>) req = [NotFound])"
proof
  have "ServeHTTP NewAliasName (b\<lparr>Locations := m\<rparr>) req =
     [Redirect
        (stubAttributionURL (b\<lparr>Locations := m\<rparr>)
           (Params req
              \<lparr>OS := if OS (Params req) = [] then DefaultOS else OS (Params req),
               Lang := if Lang (Params req) = [] then DefaultLang else Lang (Params req)\<rparr>))
        302]"
    by (rule open_gate) (simp add: assms)
  then show "ServeHTTP NewAliasName (b\<lparr>Locations := m\<rparr>) req =
     [Redirect
        (stubAttributionURL b
           (Params req
              \<lparr>OS := if OS (Params req) = [] then DefaultOS else OS (Params req),
               Lang := if Lang (Params req) = [] then DefaultLang else Lang (Params req)\<rparr>))
        302]"
    by (simp add: stubAttributionURL_def)
next
  show "ProductLocationMap m
            (case Aliases m (NewAliasName (Product (Params req))) of
               None \<Rightarrow> Product (Params req)
             | Some aliasedProduct \<Rightarrow> aliasedProduct) = None \<longrightarrow>
          ServeHTTP NewAliasName (b\<lparr>Locations := m, StubRootURL := []\<rparr>) req = [NotFound]"
  proof
    assume absent: "ProductLocationMap m
            (case Aliases m (NewAliasName (Product (Params req))) of
               None \<Rightarrow> Product (Params req)
             | Some aliasedProduct \<Rightarrow> aliasedProduct) = None"
    from assms have xp: "\<not> isWindowsXPUserAgent (UserAgent req)"
      and p: "Product (Params req) \<noteq> []"
      using Contains_nonempty by blast+
    have "URL NewAliasName (b\<lparr>Locations := m, StubRootURL := []\<rparr>) pin lang os
        (Product (Params req)) = ([], None)" for pin lang os
      by (rule URL_absent) (simp add: absent)
    then show "ServeHTTP NewAliasName (b\<lparr>Locations := m, StubRootURL := []\<rparr>) req = [NotFound]"
      using xp p
      by (simp add: ServeHTTP_def Let_def default_OS default_Lang pinned_Product
            split del: if_split cong: if_cong)
  qed
qed

theorem stub_redirect_ignores_map_witness:
  "ServeHTTP (\<lambda>s. s)
     \<lparr>Locations = \<lparr>Aliases = Map.empty, ProductLocationMap = Map.empty\<rparr>, CacheTime = 0,
      PinHttpsHeaderName = [], PinnedBaseURLHttp = ''download.cdn.mozilla.net/pub'',
      PinnedBaseURLHttps = [], StubRootURL = ''https://stubattribution.example/''\<rparr>
     \<lparr>Params = \<lparr>OS = ''win64'', Product = ''firefox-beta-stub'', Lang = ''de'', PrintOnly = False,
                 AttributionCode = ''campaign=x'', AttributionSig = ''0f''\<rparr>,
      UserAgent = ''Mozilla/5.0 (Windows NT 10.0)'', HeaderGet = (\<lambda>h. [])\<rparr>
   = [Redirect ''https://stubattribution.example/?attribution_code=campaign%3Dx&attribution_sig=0f&lang=de&os=win64&product=firefox-beta-stub'' 302] \<and>
   ServeHTTP (\<lambda>s. s)
     (\<lparr>Locations = \<lparr>Aliases = Map.empty, ProductLocationMap = Map.empty\<rparr>, CacheTime = 0,
      PinHttpsHeaderName = [], PinnedBaseURLHttp = ''download.cdn.mozilla.net/pub'',
      PinnedBaseURLHttps = [], StubRootURL = ''https://stubattribution.example/''\<rparr>\<lparr>StubRootURL := []\<rparr>)
     \<lparr>Params = \<lparr>OS = ''win64'', Product = ''firefox-beta-stub'', Lang = ''de'', PrintOnly = False,
                 AttributionCode = ''campaign=x'', AttributionSig = ''0f''\<rparr>,
      UserAgent = ''Mozilla/5.0 (Windows NT 10.0)'', HeaderGet = (\<lambda>h. [])\<rparr>
   = [NotFound]"
  using stub_redirect_ignores_map [of
     "\<lparr>Locations = \<lparr>Aliases = Map.empty, ProductLocationMap = Map.empty\<rparr>, CacheTime = 0,
      PinHttpsHeaderName = [], PinnedBaseURLHttp = ''download.cdn.mozilla.net/pub'',
      PinnedBaseURLHttps = [], StubRootURL = ''https://stubattribution.example/''\<rparr>"
     "\<lparr>Params = \<lparr>OS = ''win64'', Product = ''firefox-beta-stub'', Lang = ''de'', PrintOnly = False,
                 AttributionCode = ''campaign=x'', AttributionSig = ''0f''\<rparr>,
      UserAgent = ''Mozilla/5.0 (Windows NT 10.0)'', HeaderGet = (\<lambda>h. [])\<rparr>"
     "\<lambda>s. s" "\<lparr>Aliases = Map.empty, ProductLocationMap = Map.empty\<rparr>"]
  by (simp add: isWindowsXPUserAgent_def windowsXPRegex_def runeWidth_ASCII DefaultLang_def
        DefaultOS_def stubAttributionURL_def shouldEscape_def isAlnum_def upperhex_def)

section \<open>Windows XP and Vista user agents\<close>





















end
